theory Spec2Isabelle
  imports Main "HOL-Library.Word"
begin

section \<open>The OpenCode voice plugin: speech delivery and session capture\<close>

text \<open>
  A shallow embedding of the plugin closure \<^verbatim>\<open>VoicePlugin\<close>: \<^verbatim>\<open>canSpeak\<close>,
  \<^verbatim>\<open>speak\<close>, \<^verbatim>\<open>storeAiResponse\<close>, \<^verbatim>\<open>extractTextFromParts\<close> and the
  \<^verbatim>\<open>event\<close> handler. The variant with response capture is the one embedded; the variant
  without capture has the same \<^verbatim>\<open>canSpeak\<close> and \<^verbatim>\<open>speak\<close> (it only logs to the console
  in addition) and an \<^verbatim>\<open>event\<close> handler that stops after the announcement
  (\<open>event_announce\<close>). Console output is left out: it changes neither results nor control
  flow.
\<close>

subsection \<open>Strings and JSON values\<close>

text \<open>
  A JavaScript string is a sequence of 16-bit code units. \<open>js\<close> writes an ASCII literal.
\<close>

type_synonym jsstring = "16 word list"

definition js :: "string \<Rightarrow> jsstring" where
  "js s = map of_char s"

text \<open>
  The value \<^verbatim>\<open>JSON.parse\<close> produces. Numbers are modelled by integers: the code only looks at
  whether a number is zero. An object is the list of its members, each key once.
\<close>

datatype json =
    JNull
  | JBool bool
  | JNum int
  | JStr jsstring
  | JArr "json list"
  | JObj "(jsstring \<times> json) list"

text \<open>A JavaScript value read out of parsed JSON: a JSON value or \<^verbatim>\<open>undefined\<close>.\<close>

datatype jsval = Undefined | Val json

text \<open>JavaScript truthiness (\<^verbatim>\<open>ToBoolean\<close>), as used by \<^verbatim>\<open>!allowed\<close>.\<close>

fun truthy :: "jsval \<Rightarrow> bool" where
  "truthy Undefined = False"
| "truthy (Val JNull) = False"
| "truthy (Val (JBool b)) = b"
| "truthy (Val (JNum n)) = (n \<noteq> 0)"
| "truthy (Val (JStr s)) = (s \<noteq> [])"
| "truthy (Val (JArr xs)) = True"
| "truthy (Val (JObj kvs)) = True"

text \<open>Truthiness of an optional string such as \<^verbatim>\<open>part.text\<close>: defined and not empty.\<close>

fun truthy_str :: "jsstring option \<Rightarrow> bool" where
  "truthy_str None = False"
| "truthy_str (Some s) = (s \<noteq> [])"

subsection \<open>Configuration\<close>

record TTSConfig =
  apiUrl :: jsstring
  canSpeakUrl :: jsstring
  fallbackScript :: jsstring
  announceOnIdle :: bool
  idleMessage :: jsstring
  dbPath :: jsstring
  storeAiResponses :: bool

definition defaultConfig :: TTSConfig where
  "defaultConfig = \<lparr>
     apiUrl = js ''http://localhost:5555/api/speech/speak'',
     canSpeakUrl = js ''http://localhost:5555/api/speech/can-speak'',
     fallbackScript = js ''~/voice-assistant/voice-output/tts-api.sh'',
     announceOnIdle = False,
     idleMessage = [0xDA] @ js ''kol dokon'' @ [0x10D] @ js ''en.'',
     dbPath = js ''/home/jirka/voice-assistant/voice-assistant.db'',
     storeAiResponses = False \<rparr>"

subsection \<open>The outside world\<close>

text \<open>
  Every call that leaves the plugin is appended to a log, one constructor per call site:
  the lock query, the speech request, the fallback script, the host's session data
  interface and the \<^verbatim>\<open>sqlite3\<close> command line.
\<close>

datatype call =
    GetCanSpeak jsstring
  | PostSpeak jsstring jsstring
  | RunFallback jsstring jsstring
  | SessionMessages jsstring
  | Sqlite3 jsstring jsstring

text \<open>
  What \<^verbatim>\<open>fetch\<close> gives back: the promise rejects (network error, or the abort signal of
  the timeout fires), or there is a response with a status and a body; the body is \<open>None\<close>
  when \<^verbatim>\<open>response.json()\<close> rejects on it.
\<close>

datatype http_reply = FetchRejected | Reply nat "json option"

record response =
  status :: nat
  body :: "json option"

definition ok :: "response \<Rightarrow> bool" where
  "ok r = (200 \<le> status r \<and> status r \<le> 299)"

text \<open>
  What the shell template \<^verbatim>\<open>$\<close> gives back: the process exits with a code (the promise
  rejects unless the code is 0), or it could not be run at all.
\<close>

datatype shell_reply = Exit nat | SpawnFailed

record part =
  part_type :: jsstring
  part_text :: "jsstring option"

record message =
  info_role :: jsstring
  info_id :: jsstring
  parts :: "part list"

text \<open>
  What \<^verbatim>\<open>client.session.messages\<close> gives back: it rejects, or it resolves with a
  \<^verbatim>\<open>data\<close> field that may be missing.
\<close>

datatype messages_reply = MessagesRejected | MessagesData "message list option"

text \<open>The replies the outside world gives during one invocation of the plugin.\<close>

record world =
  lockReply :: http_reply
  speakReply :: http_reply
  fallbackExit :: shell_reply
  messagesReply :: messages_reply
  sqliteExit :: shell_reply

record plugin_event =
  event_type :: jsstring
  sessionID :: jsstring

subsection \<open>Effects: state, log and exceptions\<close>

text \<open>
  The closure's only variable, \<^verbatim>\<open>lastProcessedMessageId\<close>, and the log of calls. A
  computation returns a value or the thrown error, and the state reached either way.

  \<open>markerWrittenAt\<close> is not a variable of the closure. It records how many calls the log
  held when \<^verbatim>\<open>lastProcessedMessageId\<close> was last assigned (0 at process start), so that
  the order of the assignment and the calls around it can be stated: the calls logged
  before the assignment are \<open>take (markerWrittenAt s) (calls s)\<close>, those logged after it
  are \<open>drop (markerWrittenAt s) (calls s)\<close>.
\<close>

record pstate =
  lastProcessedMessageId :: "jsstring option"
  calls :: "call list"
  markerWrittenAt :: nat

datatype exn = FetchFailed | JsonSyntaxError | TypeError | ShellError

type_synonym 'a io = "pstate \<Rightarrow> (exn + 'a) \<times> pstate"

definition io_return :: "'a \<Rightarrow> 'a io" where
  "io_return x = (\<lambda>s. (Inr x, s))"

definition io_throw :: "exn \<Rightarrow> 'a io" where
  "io_throw e = (\<lambda>s. (Inl e, s))"

definition io_bind :: "'a io \<Rightarrow> ('a \<Rightarrow> 'b io) \<Rightarrow> 'b io" where
  "io_bind m f = (\<lambda>s. case m s of (Inl e, s') \<Rightarrow> (Inl e, s') | (Inr x, s') \<Rightarrow> f x s')"

definition io_try :: "'a io \<Rightarrow> (exn \<Rightarrow> 'a io) \<Rightarrow> 'a io" where
  "io_try m h = (\<lambda>s. case m s of (Inl e, s') \<Rightarrow> h e s' | (Inr x, s') \<Rightarrow> (Inr x, s'))"

definition io_call :: "call \<Rightarrow> unit io" where
  "io_call c = (\<lambda>s. (Inr (), s\<lparr>calls := calls s @ [c]\<rparr>))"

definition fetch :: "call \<Rightarrow> http_reply \<Rightarrow> response io" where
  "fetch c r =
     io_bind (io_call c) (\<lambda>_.
       case r of
         FetchRejected \<Rightarrow> io_throw FetchFailed
       | Reply st b \<Rightarrow> io_return \<lparr>status = st, body = b\<rparr>)"

definition response_json :: "response \<Rightarrow> json io" where
  "response_json r = (case body r of None \<Rightarrow> io_throw JsonSyntaxError | Some j \<Rightarrow> io_return j)"

text \<open>
  Property access \<^verbatim>\<open>data.canSpeak\<close>: a \<^verbatim>\<open>TypeError\<close> on \<^verbatim>\<open>null\<close>, the member of an
  object if it has one, \<^verbatim>\<open>undefined\<close> otherwise.
\<close>

fun get_member :: "json \<Rightarrow> jsstring \<Rightarrow> jsval io" where
  "get_member JNull k = io_throw TypeError"
| "get_member (JObj kvs) k =
     io_return (case map_of kvs k of None \<Rightarrow> Undefined | Some v \<Rightarrow> Val v)"
| "get_member j k = io_return Undefined"

definition shell :: "call \<Rightarrow> shell_reply \<Rightarrow> unit io" where
  "shell c r =
     io_bind (io_call c) (\<lambda>_.
       case r of
         Exit n \<Rightarrow> if n = 0 then io_return () else io_throw ShellError
       | SpawnFailed \<Rightarrow> io_throw ShellError)"

definition session_messages :: "jsstring \<Rightarrow> messages_reply \<Rightarrow> message list option io" where
  "session_messages sid r =
     io_bind (io_call (SessionMessages sid)) (\<lambda>_.
       case r of
         MessagesRejected \<Rightarrow> io_throw FetchFailed
       | MessagesData d \<Rightarrow> io_return d)"

subsection \<open>The plugin\<close>

definition canSpeak :: "TTSConfig \<Rightarrow> world \<Rightarrow> jsval io" where
  "canSpeak config w =
     io_try
       (io_bind (fetch (GetCanSpeak (canSpeakUrl config)) (lockReply w)) (\<lambda>response.
          if ok response then
            io_bind (response_json response) (\<lambda>data. get_member data (js ''canSpeak''))
          else io_return (Val (JBool True))))
       (\<lambda>error. io_return (Val (JBool True)))"

text \<open>
  The first \<^verbatim>\<open>try\<close> block of \<^verbatim>\<open>speak\<close> either returns from the function (\<open>Some\<close>) or
  falls through to the fallback (\<open>None\<close>).
\<close>

definition speak :: "TTSConfig \<Rightarrow> world \<Rightarrow> jsstring \<Rightarrow> bool io" where
  "speak config w text' =
     io_bind (canSpeak config w) (\<lambda>allowed.
       if \<not> truthy allowed then io_return True
       else
         io_bind
           (io_try
              (io_bind (fetch (PostSpeak (apiUrl config) text') (speakReply w)) (\<lambda>response.
                 if ok response then io_return (Some True) else io_return None))
              (\<lambda>error. io_return None))
           (\<lambda>returned.
              case returned of
                Some b \<Rightarrow> io_return b
              | None \<Rightarrow>
                  io_try
                    (io_bind (shell (RunFallback (fallbackScript config) text') (fallbackExit w))
                       (\<lambda>_. io_return True))
                    (\<lambda>error. io_return False)))"

text \<open>
  \<^verbatim>\<open>String.prototype.trim\<close> removes white space and line terminators from both ends; these
  are the code units it removes.
\<close>

definition js_whitespace :: "16 word list" where
  "js_whitespace =
     [0x09, 0x0A, 0x0B, 0x0C, 0x0D, 0x20, 0xA0, 0x1680,
      0x2000, 0x2001, 0x2002, 0x2003, 0x2004, 0x2005, 0x2006, 0x2007, 0x2008, 0x2009, 0x200A,
      0x2028, 0x2029, 0x202F, 0x205F, 0x3000, 0xFEFF]"

definition trim :: "jsstring \<Rightarrow> jsstring" where
  "trim s =
     rev (dropWhile (\<lambda>c. c \<in> set js_whitespace)
       (rev (dropWhile (\<lambda>c. c \<in> set js_whitespace) s)))"

text \<open>\<^verbatim>\<open>content.replace(/'/g, "''")\<close>: every quote (U+0027) becomes two.\<close>

definition replace_quotes :: "jsstring \<Rightarrow> jsstring" where
  "replace_quotes content = concat (map (\<lambda>c. if c = 0x27 then [0x27, 0x27] else [c]) content)"

definition storeAiResponse :: "TTSConfig \<Rightarrow> world \<Rightarrow> jsstring \<Rightarrow> unit io" where
  "storeAiResponse config w content =
     (if \<not> storeAiResponses config \<or> trim content = [] then io_return ()
      else
        io_try
          (let escapedContent = replace_quotes content in
           shell
             (Sqlite3 (dbPath config)
                (js ''INSERT INTO AiResponses (Content) VALUES ('' @ [0x27] @ escapedContent
                   @ [0x27] @ js '');''))
             (sqliteExit w))
          (\<lambda>error. io_return ()))"

text \<open>
  \<^verbatim>\<open>Array.prototype.join\<close>: the separator goes before every element but the first, and an
  \<^verbatim>\<open>undefined\<close> element contributes the empty string.
\<close>

fun join_loop :: "jsstring \<Rightarrow> bool \<Rightarrow> jsstring \<Rightarrow> jsstring option list \<Rightarrow> jsstring" where
  "join_loop sep first R [] = R"
| "join_loop sep first R (x # xs) =
     join_loop sep False
       ((if first then R else R @ sep) @ (case x of None \<Rightarrow> [] | Some s \<Rightarrow> s)) xs"

definition join :: "jsstring \<Rightarrow> jsstring option list \<Rightarrow> jsstring" where
  "join sep xs = join_loop sep True [] xs"

definition extractTextFromParts :: "part list \<Rightarrow> jsstring" where
  "extractTextFromParts ps =
     join [0x0A]
       (map part_text
          (filter (\<lambda>part. part_type part = js ''text'' \<and> truthy_str (part_text part)) ps))"

definition get_marker :: "jsstring option io" where
  "get_marker = (\<lambda>s. (Inr (lastProcessedMessageId s), s))"

text \<open>
  The assignment \<^verbatim>\<open>lastProcessedMessageId = ...\<close>; it notes the length of the log at this
  moment.
\<close>

definition set_marker :: "jsstring option \<Rightarrow> unit io" where
  "set_marker v =
     (\<lambda>s. (Inr (), s\<lparr>lastProcessedMessageId := v, markerWrittenAt := length (calls s)\<rparr>))"

text \<open>
  The event handler is two statements in sequence. The first one, the announcement, is the
  whole handler of the variant without response capture. The second one is the capture of
  the newest assistant message; \<open>client\<close> says whether the host handed a client to the
  plugin, and the early \<^verbatim>\<open>return\<close> on a missing client ends the handler, of which this is
  the last statement.
\<close>

definition event_announce :: "TTSConfig \<Rightarrow> world \<Rightarrow> plugin_event \<Rightarrow> unit io" where
  "event_announce config w ev =
     (if event_type ev = js ''session.idle'' \<and> announceOnIdle config
      then io_bind (speak config w (idleMessage config)) (\<lambda>_. io_return ())
      else io_return ())"

definition event_capture :: "TTSConfig \<Rightarrow> bool \<Rightarrow> world \<Rightarrow> plugin_event \<Rightarrow> unit io" where
  "event_capture config client w ev =
     (if event_type ev = js ''session.idle'' \<and> storeAiResponses config then
        if \<not> client then io_return ()
        else
          io_try
            (let sessionId = sessionID ev in
             io_bind (session_messages sessionId (messagesReply w)) (\<lambda>data.
               let messages = (case data of None \<Rightarrow> [] | Some ms \<Rightarrow> ms);
                   lastAssistantMessage =
                     find (\<lambda>m. info_role m = js ''assistant'') (rev messages)
               in
                 case lastAssistantMessage of
                   None \<Rightarrow> io_return ()
                 | Some m \<Rightarrow>
                     io_bind get_marker (\<lambda>last.
                       if Some (info_id m) \<noteq> last then
                         io_bind (set_marker (Some (info_id m))) (\<lambda>_.
                           let textContent = extractTextFromParts (parts m) in
                           if textContent \<noteq> [] then storeAiResponse config w textContent
                           else io_return ())
                       else io_return ())))
            (\<lambda>error. io_return ())
      else io_return ())"

definition event :: "TTSConfig \<Rightarrow> bool \<Rightarrow> world \<Rightarrow> plugin_event \<Rightarrow> unit io" where
  "event config client w ev =
     io_bind (event_announce config w ev) (\<lambda>_. event_capture config client w ev)"

text \<open>
  The host delivers events one at a time; each invocation of the handler meets its own
  replies from the outside world.
\<close>

fun run_events :: "TTSConfig \<Rightarrow> bool \<Rightarrow> (plugin_event \<times> world) list \<Rightarrow> pstate \<Rightarrow> pstate" where
  "run_events config client [] s = s"
| "run_events config client ((ev, w) # rest) s =
     run_events config client rest (snd (event config client w ev s))"

subsection \<open>Notions used to state the properties\<close>

text \<open>The number of persistence calls in a log.\<close>

fun is_sqlite :: "call \<Rightarrow> bool" where
  "is_sqlite (Sqlite3 p q) = True"
| "is_sqlite c = False"

definition sqlite_writes :: "call list \<Rightarrow> nat" where
  "sqlite_writes cs = length (filter is_sqlite cs)"

text \<open>The calls of the delivery chain: the speech request and the fallback script.\<close>

fun is_delivery :: "call \<Rightarrow> bool" where
  "is_delivery (PostSpeak u t) = True"
| "is_delivery (RunFallback p t) = True"
| "is_delivery c = False"

text \<open>The calls of the capture: the session data query and the persistence call.\<close>

fun is_capture :: "call \<Rightarrow> bool" where
  "is_capture (SessionMessages i) = True"
| "is_capture (Sqlite3 p q) = True"
| "is_capture c = False"

text \<open>The newest assistant message in the session data a world replies with, if any.\<close>

definition newest_assistant :: "world \<Rightarrow> message option" where
  "newest_assistant w =
     (case messagesReply w of
        MessagesRejected \<Rightarrow> None
      | MessagesData None \<Rightarrow> None
      | MessagesData (Some ms) \<Rightarrow> find (\<lambda>m. info_role m = js ''assistant'') (rev ms))"

text \<open>
  The text payloads of the text-bearing parts (type \<^verbatim>\<open>text\<close>, with a payload that is not
  empty), in order, and their concatenation with a newline between neighbours.
\<close>

fun text_payloads :: "part list \<Rightarrow> jsstring list" where
  "text_payloads [] = []"
| "text_payloads (p # ps) =
     (case part_text p of
        None \<Rightarrow> text_payloads ps
      | Some t \<Rightarrow>
          if part_type p = js ''text'' \<and> t \<noteq> [] then t # text_payloads ps
          else text_payloads ps)"

fun newline_separated :: "jsstring list \<Rightarrow> jsstring" where
  "newline_separated [] = []"
| "newline_separated [t] = t"
| "newline_separated (t # u # ts) = t @ [0x0A] @ newline_separated (u # ts)"

text \<open>
  How the record store reads a string literal of an SQL statement: the literal opens with a
  quote and runs to the first quote that is not doubled; a doubled quote stands for one
  quote character. \<open>sql_literal_body\<close> reads from behind the opening quote and returns the
  string denoted and the rest of the statement.
\<close>

fun sql_literal_body :: "jsstring \<Rightarrow> (jsstring \<times> jsstring) option" where
  "sql_literal_body [] = None"
| "sql_literal_body [c] = (if c = 0x27 then Some ([], []) else None)"
| "sql_literal_body (c # d # rest) =
     (if c = 0x27 then
        (if d = 0x27 then map_option (\<lambda>(v, r). (0x27 # v, r)) (sql_literal_body rest)
         else Some ([], d # rest))
      else map_option (\<lambda>(v, r). (c # v, r)) (sql_literal_body (d # rest)))"

definition sql_string_literal :: "jsstring \<Rightarrow> (jsstring \<times> jsstring) option" where
  "sql_string_literal s =
     (case s of [] \<Rightarrow> None | c # rest \<Rightarrow> if c = 0x27 then sql_literal_body rest else None)"

text \<open>A reply with a success status (2xx), and a shell command that exited with code 0.\<close>

fun success_status :: "http_reply \<Rightarrow> bool" where
  "success_status FetchRejected = False"
| "success_status (Reply st b) = (200 \<le> st \<and> st \<le> 299)"

fun exited_zero :: "shell_reply \<Rightarrow> bool" where
  "exited_zero (Exit n) = (n = 0)"
| "exited_zero SpawnFailed = False"

text \<open>The state after further calls have been logged.\<close>

definition logged :: "pstate \<Rightarrow> call list \<Rightarrow> pstate" where
  "logged s cs = s\<lparr>calls := calls s @ cs\<rparr>"

text \<open>The statement \<^verbatim>\<open>storeAiResponse\<close> hands to the record store for a content.\<close>

definition insert_statement :: "jsstring \<Rightarrow> jsstring" where
  "insert_statement content =
     js ''INSERT INTO AiResponses (Content) VALUES ('' @ [0x27] @ replace_quotes content
       @ [0x27] @ js '');''"

subsection \<open>Concrete inputs\<close>

text \<open>
  The state at process start, a world in which every call fails, the idle event of a
  session, and two assistant messages.
\<close>

definition initial_state :: pstate where
  "initial_state = \<lparr>lastProcessedMessageId = None, calls = [], markerWrittenAt = 0\<rparr>"

definition offline :: world where
  "offline = \<lparr>lockReply = FetchRejected, speakReply = FetchRejected, fallbackExit = SpawnFailed,
     messagesReply = MessagesRejected, sqliteExit = SpawnFailed\<rparr>"

definition idle_event :: "jsstring \<Rightarrow> plugin_event" where
  "idle_event sid = \<lparr>event_type = js ''session.idle'', sessionID = sid\<rparr>"

definition assistant_message :: "jsstring \<Rightarrow> jsstring \<Rightarrow> message" where
  "assistant_message i t =
     \<lparr>info_role = js ''assistant'', info_id = i,
      parts = [\<lparr>part_type = js ''text'', part_text = Some t\<rparr>]\<rparr>"

section \<open>Properties\<close>

subsection \<open>The lock gate and the delivery chain\<close>

lemmas io_defs = io_return_def io_throw_def io_bind_def io_try_def io_call_def

lemma get_member_snd: "snd (get_member j k s) = s"
  by (cases j) (simp_all add: io_defs)

lemma canSpeak_snd:
  "snd (canSpeak config w s) = logged s [GetCanSpeak (canSpeakUrl config)]"
proof (cases "lockReply w")
  case FetchRejected
  then show ?thesis by (simp add: canSpeak_def fetch_def io_defs logged_def)
next
  case (Reply st b)
  show ?thesis
  proof (cases b)
    case None
    with Reply show ?thesis
      by (simp add: canSpeak_def fetch_def io_defs response_json_def logged_def)
  next
    case (Some j)
    with Reply get_member_snd [of j "js ''canSpeak''" "logged s [GetCanSpeak (canSpeakUrl config)]"]
    show ?thesis
      by (auto simp add: canSpeak_def fetch_def io_defs response_json_def logged_def
          split: prod.splits sum.splits)
  qed
qed

lemma canSpeak_Inr: "\<exists>v. fst (canSpeak config w s) = Inr v"
proof (cases "lockReply w")
  case FetchRejected
  then show ?thesis by (simp add: canSpeak_def fetch_def io_defs)
next
  case (Reply st b)
  show ?thesis
  proof (cases "200 \<le> st \<and> st \<le> 299")
    case False
    with Reply show ?thesis by (auto simp add: canSpeak_def fetch_def io_defs ok_def)
  next
    case True
    show ?thesis
    proof (cases b)
      case None
      with Reply True show ?thesis
        by (simp add: canSpeak_def fetch_def io_defs ok_def response_json_def)
    next
      case (Some j)
      with Reply True show ?thesis
        by (cases j) (simp_all add: canSpeak_def fetch_def io_defs ok_def response_json_def)
    qed
  qed
qed

lemma canSpeak_run:
  "fst (canSpeak config w s) = Inr v \<Longrightarrow>
   canSpeak config w s = (Inr v, logged s [GetCanSpeak (canSpeakUrl config)])"
  using canSpeak_snd [of config w s] by (cases "canSpeak config w s") simp

lemma canSpeak_open:
  assumes "\<not> success_status (lockReply w) \<or> (\<exists>st. lockReply w = Reply st None)"
  shows "fst (canSpeak config w s) = Inr (Val (JBool True))"
proof (cases "lockReply w")
  case FetchRejected
  then show ?thesis by (simp add: canSpeak_def fetch_def io_defs)
next
  case (Reply st b)
  with assms show ?thesis
    by (auto simp add: canSpeak_def fetch_def io_defs ok_def response_json_def)
qed

lemma canSpeak_member:
  assumes "lockReply w = Reply st (Some j)" and "200 \<le> st" and "st \<le> 299"
  shows "fst (canSpeak config w s) =
    (case fst (get_member j (js ''canSpeak'') s) of
       Inl e \<Rightarrow> Inr (Val (JBool True)) | Inr v \<Rightarrow> Inr v)"
  using assms
  by (cases j) (simp_all add: canSpeak_def fetch_def io_defs ok_def response_json_def)

lemma speak_locked:
  assumes "fst (canSpeak config w s) = Inr v" and "\<not> truthy v"
  shows "speak config w t s = (Inr True, logged s [GetCanSpeak (canSpeakUrl config)])"
  using canSpeak_run [OF assms(1)] assms(2) by (simp add: speak_def io_defs)

lemma speak_allowed:
  assumes "fst (canSpeak config w s) = Inr v" and "truthy v"
  shows "speak config w t s =
    (Inr (success_status (speakReply w) \<or> exited_zero (fallbackExit w)),
     logged s (GetCanSpeak (canSpeakUrl config) # PostSpeak (apiUrl config) t #
       (if success_status (speakReply w) then [] else [RunFallback (fallbackScript config) t])))"
proof (cases "speakReply w")
  case FetchRejected
  with canSpeak_run [OF assms(1)] assms(2) show ?thesis
    by (cases "fallbackExit w")
       (simp_all add: speak_def fetch_def shell_def io_defs logged_def)
next
  case (Reply st b)
  with canSpeak_run [OF assms(1)] assms(2) show ?thesis
    by (cases "fallbackExit w")
       (simp_all add: speak_def fetch_def shell_def io_defs logged_def ok_def)
qed

text \<open>
  C1. Once the lock gate permits speech, \<open>speak\<close> posts the text to the primary endpoint
  first. With a success status it returns true and the log ends there: no fallback. With any
  other status, or when the request is rejected, the fallback script is run exactly once,
  with the same text. Whatever the log held before is kept.
\<close>

theorem speak_delivery_order:
  assumes "fst (canSpeak config w s) = Inr allowed" and "truthy allowed"
  shows
    "(success_status (speakReply w) \<longrightarrow>
        speak config w t s =
          (Inr True,
           logged s [GetCanSpeak (canSpeakUrl config), PostSpeak (apiUrl config) t])) \<and>
     (\<not> success_status (speakReply w) \<longrightarrow>
        speak config w t s =
          (Inr (exited_zero (fallbackExit w)),
           logged s [GetCanSpeak (canSpeakUrl config), PostSpeak (apiUrl config) t,
             RunFallback (fallbackScript config) t]))"
  using speak_allowed [OF assms, of t] by simp

theorem speak_delivery_order_witness:
  "fst (canSpeak defaultConfig (offline\<lparr>speakReply := Reply 204 None\<rparr>) initial_state)
     = Inr (Val (JBool True)) \<and>
   truthy (Val (JBool True)) \<and>
   success_status (speakReply (offline\<lparr>speakReply := Reply 204 None\<rparr>)) \<and>
   speak defaultConfig (offline\<lparr>speakReply := Reply 204 None\<rparr>) (js ''Hotovo.'') initial_state =
     (Inr True,
      logged initial_state
        [GetCanSpeak (canSpeakUrl defaultConfig),
         PostSpeak (apiUrl defaultConfig) (js ''Hotovo.'')]) \<and>
   \<not> success_status (speakReply (offline\<lparr>speakReply := Reply 500 None, fallbackExit := Exit 0\<rparr>)) \<and>
   speak defaultConfig (offline\<lparr>speakReply := Reply 500 None, fallbackExit := Exit 0\<rparr>)
       (js ''Hotovo.'') initial_state =
     (Inr True,
      logged initial_state
        [GetCanSpeak (canSpeakUrl defaultConfig),
         PostSpeak (apiUrl defaultConfig) (js ''Hotovo.''),
         RunFallback (fallbackScript defaultConfig) (js ''Hotovo.'')])"
proof -
  have a: "fst (canSpeak defaultConfig (offline\<lparr>speakReply := Reply 204 None\<rparr>) initial_state)
     = Inr (Val (JBool True))"
    by (simp add: offline_def canSpeak_def fetch_def io_defs)
  have b: "fst (canSpeak defaultConfig
      (offline\<lparr>speakReply := Reply 500 None, fallbackExit := Exit 0\<rparr>) initial_state)
     = Inr (Val (JBool True))"
    by (simp add: offline_def canSpeak_def fetch_def io_defs)
  have c: "truthy (Val (JBool True))" by simp
  show ?thesis
    using a speak_delivery_order [OF a c, of "js ''Hotovo.''"]
      speak_delivery_order [OF b c, of "js ''Hotovo.''"]
    by (simp add: offline_def)
qed

text \<open>
  C2. When the lock gate reports that speech is not permitted (\<open>canSpeak\<close> returns a value
  that is not truthy), \<open>speak\<close> returns true and the only call it has issued is the lock
  query: the log holds no call of the delivery chain that was not there before.
\<close>

theorem speak_locked_silent:
  assumes "fst (canSpeak config w s) = Inr allowed" and "\<not> truthy allowed"
  shows
    "speak config w t s = (Inr True, logged s [GetCanSpeak (canSpeakUrl config)]) \<and>
     filter is_delivery (calls (snd (speak config w t s))) = filter is_delivery (calls s)"
  using speak_locked [OF assms, of t] by (simp add: logged_def)

theorem speak_locked_silent_witness:
  "fst (canSpeak defaultConfig
      (offline\<lparr>lockReply := Reply 200 (Some (JObj [(js ''canSpeak'', JBool False)]))\<rparr>)
      initial_state) = Inr (Val (JBool False)) \<and>
   \<not> truthy (Val (JBool False)) \<and>
   speak defaultConfig
      (offline\<lparr>lockReply := Reply 200 (Some (JObj [(js ''canSpeak'', JBool False)]))\<rparr>)
      (js ''Hotovo.'') initial_state =
     (Inr True, logged initial_state [GetCanSpeak (canSpeakUrl defaultConfig)])"
proof -
  have a: "fst (canSpeak defaultConfig
      (offline\<lparr>lockReply := Reply 200 (Some (JObj [(js ''canSpeak'', JBool False)]))\<rparr>)
      initial_state) = Inr (Val (JBool False))"
    by (simp add: offline_def canSpeak_def fetch_def io_defs ok_def response_json_def)
  have b: "\<not> truthy (Val (JBool False))" by simp
  show ?thesis
    using a speak_locked_silent [OF a b, of "js ''Hotovo.''"] by simp
qed

text \<open>
  C3. \<open>canSpeak\<close> never raises, whatever the endpoint replies, and it issues exactly one
  query. When the request is rejected (network error, timeout), when the status is not a
  success status, or when the body cannot be parsed, it returns true.
\<close>

theorem canSpeak_fail_open:
  "(\<exists>v. canSpeak config w s = (Inr v, logged s [GetCanSpeak (canSpeakUrl config)])) \<and>
   (\<not> success_status (lockReply w) \<or> (\<exists>st. lockReply w = Reply st None) \<longrightarrow>
      canSpeak config w s =
        (Inr (Val (JBool True)), logged s [GetCanSpeak (canSpeakUrl config)]))"
proof -
  obtain v where v: "fst (canSpeak config w s) = Inr v"
    using canSpeak_Inr by blast
  show ?thesis
    using canSpeak_run [OF v] canSpeak_run [OF canSpeak_open] by blast
qed

theorem canSpeak_fail_open_witness:
  "\<not> success_status (lockReply offline) \<and>
   canSpeak defaultConfig offline initial_state =
     (Inr (Val (JBool True)), logged initial_state [GetCanSpeak (canSpeakUrl defaultConfig)]) \<and>
   \<not> success_status (lockReply (offline\<lparr>lockReply := Reply 503 None\<rparr>)) \<and>
   canSpeak defaultConfig (offline\<lparr>lockReply := Reply 503 None\<rparr>) initial_state =
     (Inr (Val (JBool True)), logged initial_state [GetCanSpeak (canSpeakUrl defaultConfig)]) \<and>
   lockReply (offline\<lparr>lockReply := Reply 200 None\<rparr>) = Reply 200 None \<and>
   canSpeak defaultConfig (offline\<lparr>lockReply := Reply 200 None\<rparr>) initial_state =
     (Inr (Val (JBool True)), logged initial_state [GetCanSpeak (canSpeakUrl defaultConfig)])"
  using canSpeak_fail_open [of defaultConfig offline initial_state]
    canSpeak_fail_open [of defaultConfig "offline\<lparr>lockReply := Reply 503 None\<rparr>" initial_state]
    canSpeak_fail_open [of defaultConfig "offline\<lparr>lockReply := Reply 200 None\<rparr>" initial_state]
  by (simp add: offline_def)

text \<open>
  C4. \<open>speak\<close> returns a boolean and never raises, for every text, world and state. When
  the lock gate permits speech, the primary endpoint does not answer with a success status
  and the fallback script does not exit with code 0, the boolean is false.
\<close>

theorem speak_never_raises:
  "(\<exists>b. fst (speak config w t s) = Inr b) \<and>
   (\<forall>allowed. fst (canSpeak config w s) = Inr allowed \<and> truthy allowed \<and>
      \<not> success_status (speakReply w) \<and> \<not> exited_zero (fallbackExit w) \<longrightarrow>
      fst (speak config w t s) = Inr False)"
proof -
  obtain v where v: "fst (canSpeak config w s) = Inr v"
    using canSpeak_Inr by blast
  have "\<exists>b. fst (speak config w t s) = Inr b"
  proof (cases "truthy v")
    case True
    from speak_allowed [OF v True, of t] show ?thesis by auto
  next
    case False
    from speak_locked [OF v False, of t] show ?thesis by auto
  qed
  moreover have "fst (speak config w t s) = Inr False"
    if "fst (canSpeak config w s) = Inr a" "truthy a"
      "\<not> success_status (speakReply w)" "\<not> exited_zero (fallbackExit w)" for a
    using speak_allowed [OF that(1,2), of t] that(3,4) by simp
  ultimately show ?thesis by blast
qed

theorem speak_never_raises_witness:
  "fst (canSpeak defaultConfig offline initial_state) = Inr (Val (JBool True)) \<and>
   truthy (Val (JBool True)) \<and>
   \<not> success_status (speakReply offline) \<and> \<not> exited_zero (fallbackExit offline) \<and>
   fst (speak defaultConfig offline (js ''Hotovo.'') initial_state) = Inr False"
proof -
  have a: "fst (canSpeak defaultConfig offline initial_state) = Inr (Val (JBool True))"
    by (simp add: offline_def canSpeak_def fetch_def io_defs)
  have b: "\<not> success_status (speakReply offline) \<and> \<not> exited_zero (fallbackExit offline)"
    by (simp add: offline_def)
  show ?thesis
    using a b speak_never_raises [of defaultConfig offline "js ''Hotovo.''" initial_state]
    by simp
qed

text \<open>
  C10 (amended). When the lock query is answered with a success status and a parsed body
  whose \<open>canSpeak\<close> member is missing or falsy (false, null, 0, the empty string),
  \<open>canSpeak\<close> returns that value (\<open>Undefined\<close> for a missing member) and \<open>speak\<close>
  returns true with the lock query as its only call. A member that is truthy permits speech
  even when it is not the boolean true: the speech request is issued. On the body
  \<open>null\<close> the property access throws inside the \<^verbatim>\<open>try\<close> block and \<open>canSpeak\<close>
  returns true.
\<close>

theorem canSpeak_member_decides:
  assumes "lockReply w = Reply st (Some j)" and "200 \<le> st" and "st \<le> 299"
  shows
    "(\<forall>v. fst (get_member j (js ''canSpeak'') s) = Inr v \<and> \<not> truthy v \<longrightarrow>
        fst (canSpeak config w s) = Inr v \<and>
        speak config w t s = (Inr True, logged s [GetCanSpeak (canSpeakUrl config)])) \<and>
     (\<forall>v. fst (get_member j (js ''canSpeak'') s) = Inr v \<and> truthy v \<longrightarrow>
        fst (canSpeak config w s) = Inr v \<and>
        take 2 (drop (length (calls s)) (calls (snd (speak config w t s)))) =
          [GetCanSpeak (canSpeakUrl config), PostSpeak (apiUrl config) t]) \<and>
     (j = JNull \<longrightarrow> fst (canSpeak config w s) = Inr (Val (JBool True)))"
proof -
  note m = canSpeak_member [OF assms, of config s]
  have "fst (canSpeak config w s) = Inr v \<and>
      speak config w t s = (Inr True, logged s [GetCanSpeak (canSpeakUrl config)])"
    if "fst (get_member j (js ''canSpeak'') s) = Inr v" "\<not> truthy v" for v
  proof -
    from m that(1) have c: "fst (canSpeak config w s) = Inr v" by simp
    from c speak_locked [OF c that(2), of t] show ?thesis by simp
  qed
  moreover have "fst (canSpeak config w s) = Inr v \<and>
      take 2 (drop (length (calls s)) (calls (snd (speak config w t s)))) =
        [GetCanSpeak (canSpeakUrl config), PostSpeak (apiUrl config) t]"
    if "fst (get_member j (js ''canSpeak'') s) = Inr v" "truthy v" for v
  proof -
    from m that(1) have c: "fst (canSpeak config w s) = Inr v" by simp
    from c speak_allowed [OF c that(2), of t] show ?thesis by (simp add: logged_def)
  qed
  moreover have "fst (canSpeak config w s) = Inr (Val (JBool True))" if "j = JNull"
    using m that by (simp add: io_defs)
  ultimately show ?thesis by blast
qed

theorem canSpeak_member_decides_witness:
  "fst (get_member (JObj []) (js ''canSpeak'') initial_state) = Inr Undefined \<and>
   \<not> truthy Undefined \<and>
   fst (canSpeak defaultConfig (offline\<lparr>lockReply := Reply 200 (Some (JObj []))\<rparr>) initial_state)
     = Inr Undefined \<and>
   speak defaultConfig (offline\<lparr>lockReply := Reply 200 (Some (JObj []))\<rparr>) (js ''Hotovo.'')
       initial_state =
     (Inr True, logged initial_state [GetCanSpeak (canSpeakUrl defaultConfig)]) \<and>
   fst (get_member (JObj [(js ''canSpeak'', JNum 1)]) (js ''canSpeak'') initial_state)
     = Inr (Val (JNum 1)) \<and>
   truthy (Val (JNum 1)) \<and>
   take 2 (drop (length (calls initial_state))
       (calls (snd (speak defaultConfig
          (offline\<lparr>lockReply := Reply 200 (Some (JObj [(js ''canSpeak'', JNum 1)]))\<rparr>)
          (js ''Hotovo.'') initial_state)))) =
     [GetCanSpeak (canSpeakUrl defaultConfig), PostSpeak (apiUrl defaultConfig) (js ''Hotovo.'')] \<and>
   fst (canSpeak defaultConfig (offline\<lparr>lockReply := Reply 200 (Some JNull)\<rparr>) initial_state)
     = Inr (Val (JBool True))"
proof -
  have a: "lockReply (offline\<lparr>lockReply := Reply 200 (Some (JObj []))\<rparr>)
      = Reply 200 (Some (JObj []))"
    and b: "lockReply (offline\<lparr>lockReply := Reply 200 (Some (JObj [(js ''canSpeak'', JNum 1)]))\<rparr>)
      = Reply 200 (Some (JObj [(js ''canSpeak'', JNum 1)]))"
    and c: "lockReply (offline\<lparr>lockReply := Reply 200 (Some JNull)\<rparr>) = Reply 200 (Some JNull)"
    and d: "(200::nat) \<le> 200" "(200::nat) \<le> 299"
    by simp_all
  show ?thesis
    using canSpeak_member_decides [OF a d, of initial_state defaultConfig "js ''Hotovo.''"]
      canSpeak_member_decides [OF b d, of initial_state defaultConfig "js ''Hotovo.''"]
      canSpeak_member_decides [OF c d, of initial_state defaultConfig "js ''Hotovo.''"]
    by (simp add: io_defs)
qed

text \<open>
  The claim as first stated fails on the member \<^verbatim>\<open>"false"\<close>, a string: the answer has a
  success status, the member is not true, \<open>canSpeak\<close> returns it, and \<open>speak\<close> goes on to
  the primary endpoint and the fallback script (both fail in this world, so it returns false).
\<close>

theorem canSpeak_not_true_counterexample:
  "success_status (lockReply
      (offline\<lparr>lockReply := Reply 200 (Some (JObj [(js ''canSpeak'', JStr (js ''false''))]))\<rparr>)) \<and>
   fst (canSpeak defaultConfig
      (offline\<lparr>lockReply := Reply 200 (Some (JObj [(js ''canSpeak'', JStr (js ''false''))]))\<rparr>)
      initial_state) = Inr (Val (JStr (js ''false''))) \<and>
   Val (JStr (js ''false'')) \<noteq> Val (JBool True) \<and>
   speak defaultConfig
      (offline\<lparr>lockReply := Reply 200 (Some (JObj [(js ''canSpeak'', JStr (js ''false''))]))\<rparr>)
      (js ''Hotovo.'') initial_state =
     (Inr False,
      logged initial_state
        [GetCanSpeak (canSpeakUrl defaultConfig),
         PostSpeak (apiUrl defaultConfig) (js ''Hotovo.''),
         RunFallback (fallbackScript defaultConfig) (js ''Hotovo.'')])"
  by (simp add: offline_def canSpeak_def speak_def fetch_def shell_def response_json_def
      ok_def io_defs logged_def js_def)

subsection \<open>Text extraction\<close>

lemma join_loop_Some:
  "join_loop sep False R (map Some ts) = R @ concat (map (\<lambda>t. sep @ t) ts)"
  by (induction ts arbitrary: R) simp_all

lemma newline_separated_Cons:
  "newline_separated (t # ts) = t @ concat (map (\<lambda>u. [0x0A] @ u) ts)"
  by (induction ts arbitrary: t) simp_all

lemma text_bearing_filter:
  "map part_text
     (filter (\<lambda>part. part_type part = js ''text'' \<and> truthy_str (part_text part)) ps)
   = map Some (text_payloads ps)"
  by (induction ps) (auto split: option.splits)

lemma join_newline: "join [0x0A] (map Some ts) = newline_separated ts"
  by (cases ts) (simp_all add: join_def join_loop_Some newline_separated_Cons)

lemma extractTextFromParts_payloads:
  "extractTextFromParts ps = newline_separated (text_payloads ps)"
  by (simp add: extractTextFromParts_def text_bearing_filter join_newline)

text \<open>
  C7. For every list of parts, the extracted content is the text payloads of the
  text-bearing parts (type \<^verbatim>\<open>text\<close>, payload present and not empty), in their order, with
  one newline between neighbours. For the parts \<^verbatim>\<open>text "A"\<close>, \<^verbatim>\<open>other\<close>, \<^verbatim>\<open>text "B"\<close>
  it is \<^verbatim>\<open>"A\nB"\<close>.
\<close>

theorem extractTextFromParts_joins:
  "extractTextFromParts ps = newline_separated (text_payloads ps) \<and>
   extractTextFromParts
     [\<lparr>part_type = js ''text'', part_text = Some (js ''A'')\<rparr>,
      \<lparr>part_type = js ''other'', part_text = None\<rparr>,
      \<lparr>part_type = js ''text'', part_text = Some (js ''B'')\<rparr>]
   = js ''A'' @ [0x0A] @ js ''B''"
proof -
  have "extractTextFromParts
     [\<lparr>part_type = js ''text'', part_text = Some (js ''A'')\<rparr>,
      \<lparr>part_type = js ''other'', part_text = None\<rparr>,
      \<lparr>part_type = js ''text'', part_text = Some (js ''B'')\<rparr>]
   = js ''A'' @ [0x0A] @ js ''B''"
    by (simp add: extractTextFromParts_def join_def js_def)
  with extractTextFromParts_payloads show ?thesis by blast
qed

theorem extractTextFromParts_joins_witness:
  "extractTextFromParts
     [\<lparr>part_type = js ''text'', part_text = Some (js ''one'')\<rparr>,
      \<lparr>part_type = js ''text'', part_text = Some []\<rparr>,
      \<lparr>part_type = js ''tool'', part_text = Some (js ''two'')\<rparr>,
      \<lparr>part_type = js ''text'', part_text = Some (js ''three'')\<rparr>]
   = js ''one'' @ [0x0A] @ js ''three''"
  using extractTextFromParts_joins
    [of "[\<lparr>part_type = js ''text'', part_text = Some (js ''one'')\<rparr>,
      \<lparr>part_type = js ''text'', part_text = Some []\<rparr>,
      \<lparr>part_type = js ''tool'', part_text = Some (js ''two'')\<rparr>,
      \<lparr>part_type = js ''text'', part_text = Some (js ''three'')\<rparr>]"]
  by (simp add: js_def)

subsection \<open>The response store\<close>

lemma trim_empty_iff: "trim s = [] \<longleftrightarrow> set s \<subseteq> set js_whitespace"
proof -
  let ?P = "\<lambda>c. c \<in> set js_whitespace"
  have "trim s = [] \<longleftrightarrow> (\<forall>c \<in> set (dropWhile ?P s). ?P c)"
    by (simp add: trim_def)
  also have "\<dots> \<longleftrightarrow> dropWhile ?P s = []"
  proof
    assume h: "\<forall>c \<in> set (dropWhile ?P s). ?P c"
    show "dropWhile ?P s = []"
    proof (rule ccontr)
      assume n: "dropWhile ?P s \<noteq> []"
      then have "\<not> ?P (hd (dropWhile ?P s))" by (rule hd_dropWhile)
      moreover from n have "hd (dropWhile ?P s) \<in> set (dropWhile ?P s)" by simp
      ultimately show False using h by blast
    qed
  qed (auto dest: set_dropWhileD)
  also have "\<dots> \<longleftrightarrow> set s \<subseteq> set js_whitespace"
    by auto
  finally show ?thesis .
qed

lemma replace_quotes_Cons:
  "replace_quotes (c # cs) = (if c = 0x27 then [0x27, 0x27] else [c]) @ replace_quotes cs"
  by (simp add: replace_quotes_def)

lemma sql_literal_body_escaped:
  assumes "rest = [] \<or> hd rest \<noteq> 0x27"
  shows "sql_literal_body (replace_quotes content @ 0x27 # rest) = Some (content, rest)"
proof (induction content)
  case Nil
  from assms show ?case by (cases rest) (simp_all add: replace_quotes_def)
next
  case (Cons c cs)
  obtain d r where dr: "replace_quotes cs @ 0x27 # rest = d # r"
    by (cases "replace_quotes cs @ 0x27 # rest") simp_all
  show ?case
  proof (cases "c = 0x27")
    case True
    with Cons show ?thesis by (simp add: replace_quotes_Cons)
  next
    case False
    have "sql_literal_body (c # d # r) = map_option (\<lambda>(v, r). (c # v, r)) (sql_literal_body (d # r))"
      using False by simp
    with Cons dr False show ?thesis by (simp add: replace_quotes_Cons)
  qed
qed

lemma storeAiResponse_run:
  "storeAiResponse config w content s =
     (Inr (),
      if \<not> storeAiResponses config \<or> trim content = [] then s
      else logged s [Sqlite3 (dbPath config) (insert_statement content)])"
  by (cases "sqliteExit w")
     (simp_all add: storeAiResponse_def shell_def io_defs logged_def insert_statement_def)

text \<open>
  C8. \<open>storeAiResponse\<close> does nothing when storing is disabled or the content consists of
  white space only (the empty content included). Otherwise it issues one insertion whose
  string literal holds the content with every quote doubled, so that the record store reads
  exactly the content back from the literal and the statement goes on behind it; and it
  returns without raising whatever happens to the insertion.
\<close>

theorem storeAiResponse_contract:
  "(\<not> storeAiResponses config \<or> set content \<subseteq> set js_whitespace \<longrightarrow>
      storeAiResponse config w content s = (Inr (), s)) \<and>
   (storeAiResponses config \<and> \<not> set content \<subseteq> set js_whitespace \<longrightarrow>
      storeAiResponse config w content s =
        (Inr (),
         logged s
           [Sqlite3 (dbPath config)
              (js ''INSERT INTO AiResponses (Content) VALUES ('' @ [0x27]
                 @ replace_quotes content @ [0x27] @ js '');'')]) \<and>
      sql_string_literal ([0x27] @ replace_quotes content @ [0x27] @ js '');'')
        = Some (content, js '');''))"
proof -
  have "sql_string_literal ([0x27] @ replace_quotes content @ [0x27] @ js '');'')
      = Some (content, js '');'')"
    using sql_literal_body_escaped [of "js '');''" content]
    by (simp add: sql_string_literal_def js_def)
  then show ?thesis
    using storeAiResponse_run [of config w content s]
    by (simp add: trim_empty_iff insert_statement_def)
qed

theorem storeAiResponse_contract_witness:
  "\<not> storeAiResponses defaultConfig \<and>
   storeAiResponse defaultConfig offline (js ''O'Brien'') initial_state = (Inr (), initial_state) \<and>
   set [0x20, 0x0A, 0xA0] \<subseteq> set js_whitespace \<and>
   storeAiResponse (defaultConfig\<lparr>storeAiResponses := True\<rparr>) offline [0x20, 0x0A, 0xA0]
     initial_state = (Inr (), initial_state) \<and>
   storeAiResponses (defaultConfig\<lparr>storeAiResponses := True\<rparr>) \<and>
   \<not> set (js ''O'Brien'') \<subseteq> set js_whitespace \<and>
   \<not> exited_zero (sqliteExit offline) \<and>
   storeAiResponse (defaultConfig\<lparr>storeAiResponses := True\<rparr>) offline (js ''O'Brien'')
     initial_state =
     (Inr (),
      logged initial_state
        [Sqlite3 (dbPath defaultConfig)
           (js ''INSERT INTO AiResponses (Content) VALUES ('' @ [0x27] @ js ''O''
              @ [0x27, 0x27] @ js ''Brien'' @ [0x27] @ js '');'')]) \<and>
   sql_string_literal ([0x27] @ js ''O'' @ [0x27, 0x27] @ js ''Brien'' @ [0x27] @ js '');'')
     = Some (js ''O'Brien'', js '');'')"
  using storeAiResponse_contract [of defaultConfig "js ''O'Brien''" offline initial_state]
    storeAiResponse_contract
      [of "defaultConfig\<lparr>storeAiResponses := True\<rparr>" "[0x20, 0x0A, 0xA0]" offline initial_state]
    storeAiResponse_contract
      [of "defaultConfig\<lparr>storeAiResponses := True\<rparr>" "js ''O'Brien''" offline initial_state]
  by (simp add: defaultConfig_def offline_def js_def js_whitespace_def replace_quotes_def)

subsection \<open>The event handler\<close>

lemma logged_Nil: "logged s [] = s"
  by (simp add: logged_def)

lemma speak_run:
  "\<exists>b cs. speak config w t s = (Inr b, logged s cs) \<and> (\<forall>c \<in> set cs. \<not> is_capture c)"
proof -
  obtain v where v: "fst (canSpeak config w s) = Inr v"
    using canSpeak_Inr by blast
  show ?thesis
  proof (cases "truthy v")
    case True
    from speak_allowed [OF v True, of t] show ?thesis by fastforce
  next
    case False
    from speak_locked [OF v False, of t] show ?thesis by fastforce
  qed
qed

lemma event_announce_run:
  "event_announce config w ev s =
     (Inr (),
      if event_type ev = js ''session.idle'' \<and> announceOnIdle config
      then snd (speak config w (idleMessage config) s) else s)"
proof -
  obtain b cs where "speak config w (idleMessage config) s = (Inr b, logged s cs)"
    using speak_run by blast
  then show ?thesis by (simp add: event_announce_def io_defs)
qed

lemma event_announce_log:
  "\<exists>cs. snd (event_announce config w ev s) = logged s cs \<and> (\<forall>c \<in> set cs. \<not> is_capture c)"
proof (cases "event_type ev = js ''session.idle'' \<and> announceOnIdle config")
  case True
  obtain b cs where "speak config w (idleMessage config) s = (Inr b, logged s cs)"
    and "\<forall>c \<in> set cs. \<not> is_capture c"
    using speak_run by blast
  with True show ?thesis by (auto simp add: event_announce_run)
next
  case False
  then have "snd (event_announce config w ev s) = logged s [] \<and> (\<forall>c \<in> set []. \<not> is_capture c)"
    by (auto simp add: event_announce_run logged_Nil)
  then show ?thesis by (rule exI)
qed

lemma trim_Nil: "trim [] = []"
  by (simp add: trim_def)

lemma trim_nonempty: "trim x \<noteq> [] \<Longrightarrow> (x = []) = False"
  by (auto simp add: trim_Nil)

lemma event_capture_run:
  "event_capture config client w ev s =
     (Inr (),
      if event_type ev = js ''session.idle'' \<and> storeAiResponses config \<and> client then
        (case newest_assistant w of
           None \<Rightarrow> logged s [SessionMessages (sessionID ev)]
         | Some m \<Rightarrow>
             if Some (info_id m) = lastProcessedMessageId s
             then logged s [SessionMessages (sessionID ev)]
             else (logged s
                (SessionMessages (sessionID ev) #
                   (if trim (extractTextFromParts (parts m)) = [] then []
                    else [Sqlite3 (dbPath config)
                            (insert_statement (extractTextFromParts (parts m)))])))
                \<lparr>lastProcessedMessageId := Some (info_id m),
                 markerWrittenAt := Suc (length (calls s))\<rparr>)
      else s)"
proof (cases "event_type ev = js ''session.idle'' \<and> storeAiResponses config \<and> client")
  case False
  then show ?thesis by (auto simp add: event_capture_def io_defs)
next
  case True
  show ?thesis
  proof (cases "messagesReply w")
    case MessagesRejected
    with True show ?thesis
      by (simp add: event_capture_def session_messages_def newest_assistant_def io_defs
          logged_def)
  next
    case (MessagesData d)
    show ?thesis
    proof (cases "newest_assistant w")
      case None
      with True MessagesData show ?thesis
        by (cases d)
           (simp_all add: event_capture_def session_messages_def newest_assistant_def io_defs
              logged_def)
    next
      case (Some m)
      with MessagesData obtain ms where d: "d = Some ms"
        and f: "find (\<lambda>m. info_role m = js ''assistant'') (rev ms) = Some m"
        by (cases d) (simp_all add: newest_assistant_def)
      from True MessagesData Some d f show ?thesis
        by (auto simp add: event_capture_def session_messages_def io_defs get_marker_def
            set_marker_def storeAiResponse_run logged_def trim_nonempty trim_Nil Let_def)
    qed
  qed
qed

lemma event_run:
  "event config client w ev s =
     (Inr (), snd (event_capture config client w ev (snd (event_announce config w ev s))))"
  by (simp add: event_def io_bind_def event_announce_run event_capture_run)

lemma sqlite_writes_logged:
  "sqlite_writes (calls (logged s cs)) = sqlite_writes (calls s) + sqlite_writes cs"
  by (simp add: logged_def sqlite_writes_def)

lemma no_capture_no_sqlite:
  "\<forall>c \<in> set cs. \<not> is_capture c \<Longrightarrow> sqlite_writes cs = 0"
proof (induction cs)
  case Nil
  then show ?case by (simp add: sqlite_writes_def)
next
  case (Cons c cs)
  then show ?case by (cases c) (simp_all add: sqlite_writes_def)
qed

lemma event_announce_marker:
  "lastProcessedMessageId (snd (event_announce config w ev s)) = lastProcessedMessageId s"
proof -
  obtain cs where "snd (event_announce config w ev s) = logged s cs"
    using event_announce_log by blast
  then show ?thesis by (simp add: logged_def)
qed

lemma event_announce_writes:
  "sqlite_writes (calls (snd (event_announce config w ev s))) = sqlite_writes (calls s)"
proof -
  obtain cs where "snd (event_announce config w ev s) = logged s cs"
    and "\<forall>c \<in> set cs. \<not> is_capture c"
    using event_announce_log by blast
  then show ?thesis by (simp add: sqlite_writes_logged no_capture_no_sqlite)
qed

lemma event_marker:
  "lastProcessedMessageId (snd (event config client w ev s)) =
     (if event_type ev = js ''session.idle'' \<and> storeAiResponses config \<and> client then
        (case newest_assistant w of
           None \<Rightarrow> lastProcessedMessageId s
         | Some m \<Rightarrow> Some (info_id m))
      else lastProcessedMessageId s)"
  using event_announce_marker [of config w ev s]
  by (auto simp add: event_run event_capture_run logged_def split: option.splits)

lemma event_writes:
  "sqlite_writes (calls (snd (event config client w ev s))) =
     sqlite_writes (calls s) +
     (if event_type ev = js ''session.idle'' \<and> storeAiResponses config \<and> client then
        (case newest_assistant w of
           None \<Rightarrow> 0
         | Some m \<Rightarrow>
             if Some (info_id m) = lastProcessedMessageId s
                \<or> trim (extractTextFromParts (parts m)) = []
             then 0 else 1)
      else 0)"
  using event_announce_marker [of config w ev s] event_announce_writes [of config w ev s]
  by (auto simp add: event_run event_capture_run logged_def sqlite_writes_def
      split: option.splits)

lemma run_events_settled:
  assumes "lastProcessedMessageId s = Some i"
    and "\<forall>(e, w) \<in> set evs. \<forall>m. newest_assistant w = Some m \<longrightarrow> info_id m = i"
  shows "lastProcessedMessageId (run_events config client evs s) = Some i \<and>
    sqlite_writes (calls (run_events config client evs s)) = sqlite_writes (calls s)"
  using assms
proof (induction evs arbitrary: s)
  case Nil
  then show ?case by simp
next
  case (Cons x evs)
  obtain e w where x: "x = (e, w)" by (cases x)
  let ?s = "snd (event config client w e s)"
  from Cons.prems x have same: "\<forall>m. newest_assistant w = Some m \<longrightarrow> info_id m = i"
    by simp
  with Cons.prems(1) have m: "lastProcessedMessageId ?s = Some i"
    by (auto simp add: event_marker split: option.splits)
  from same Cons.prems(1) have n: "sqlite_writes (calls ?s) = sqlite_writes (calls s)"
    by (auto simp add: event_writes split: option.splits)
  from Cons.prems(2) have "\<forall>(e, w) \<in> set evs. \<forall>m. newest_assistant w = Some m \<longrightarrow> info_id m = i"
    by simp
  from Cons.IH [OF m this] n x show ?case by simp
qed

lemma event_capture_log:
  "\<exists>later. calls (snd (event_capture config client w ev s)) = calls s @ later \<and>
     (\<forall>c \<in> set later. is_capture c)"
proof -
  let ?x = "calls (snd (event_capture config client w ev s))"
  have "?x = calls s @ [] \<or> ?x = calls s @ [SessionMessages (sessionID ev)] \<or>
    (\<exists>q. ?x = calls s @ [SessionMessages (sessionID ev), Sqlite3 (dbPath config) q])"
    by (auto simp add: event_capture_run logged_def split: option.splits)
  moreover have "\<forall>c \<in> set []. is_capture c"
    and "\<forall>c \<in> set [SessionMessages (sessionID ev)]. is_capture c"
    and "\<And>q. \<forall>c \<in> set [SessionMessages (sessionID ev), Sqlite3 (dbPath config) q]. is_capture c"
    by simp_all
  ultimately show ?thesis by blast
qed

text \<open>
  C9. On an idle event with the announcement enabled, the handler runs \<open>speak\<close> on the
  configured idle message: the state the announcement leaves is the state \<open>speak\<close> leaves
  on that text, and whatever the handler logs afterwards is a call of the capture, not of
  the delivery chain. On an event of any other type the handler returns with the state
  untouched. Both hold for the handler with and the handler without response capture.
\<close>

theorem event_dispatch:
  "(event_type ev = js ''session.idle'' \<and> announceOnIdle config \<longrightarrow>
      event_announce config w ev s = (Inr (), snd (speak config w (idleMessage config) s)) \<and>
      fst (event config client w ev s) = Inr () \<and>
      (\<exists>later.
         calls (snd (event config client w ev s)) =
           calls (snd (speak config w (idleMessage config) s)) @ later \<and>
         (\<forall>c \<in> set later. is_capture c))) \<and>
   (event_type ev \<noteq> js ''session.idle'' \<longrightarrow>
      event_announce config w ev s = (Inr (), s) \<and>
      event config client w ev s = (Inr (), s))"
proof -
  have "\<exists>later.
         calls (snd (event config client w ev s)) =
           calls (snd (speak config w (idleMessage config) s)) @ later \<and>
         (\<forall>c \<in> set later. is_capture c)"
    if "event_type ev = js ''session.idle'' \<and> announceOnIdle config"
    using that event_capture_log [of config client w ev "snd (speak config w (idleMessage config) s)"]
    by (simp add: event_run event_announce_run)
  moreover have "event config client w ev s = (Inr (), s)"
    if "event_type ev \<noteq> js ''session.idle''"
    using that by (simp add: event_run event_announce_run event_capture_run)
  ultimately show ?thesis
    by (simp add: event_announce_run event_run)
qed

theorem event_dispatch_witness:
  "event_type (idle_event (js ''ses_1'')) = js ''session.idle'' \<and>
   announceOnIdle (defaultConfig\<lparr>announceOnIdle := True\<rparr>) \<and>
   idleMessage (defaultConfig\<lparr>announceOnIdle := True\<rparr>)
     = [0xDA] @ js ''kol dokon'' @ [0x10D] @ js ''en.'' \<and>
   event (defaultConfig\<lparr>announceOnIdle := True\<rparr>) True (offline\<lparr>speakReply := Reply 200 None\<rparr>)
       (idle_event (js ''ses_1'')) initial_state =
     (Inr (),
      logged initial_state
        [GetCanSpeak (canSpeakUrl defaultConfig),
         PostSpeak (apiUrl defaultConfig) ([0xDA] @ js ''kol dokon'' @ [0x10D] @ js ''en.'')]) \<and>
   event_announce (defaultConfig\<lparr>announceOnIdle := True\<rparr>) (offline\<lparr>speakReply := Reply 200 None\<rparr>)
       (idle_event (js ''ses_1'')) initial_state =
     (Inr (),
      logged initial_state
        [GetCanSpeak (canSpeakUrl defaultConfig),
         PostSpeak (apiUrl defaultConfig) ([0xDA] @ js ''kol dokon'' @ [0x10D] @ js ''en.'')]) \<and>
   event_type \<lparr>event_type = js ''message.updated'', sessionID = js ''ses_1''\<rparr>
     \<noteq> js ''session.idle'' \<and>
   event (defaultConfig\<lparr>announceOnIdle := True\<rparr>) True (offline\<lparr>speakReply := Reply 200 None\<rparr>)
       \<lparr>event_type = js ''message.updated'', sessionID = js ''ses_1''\<rparr> initial_state =
     (Inr (), initial_state)"
proof -
  let ?c = "defaultConfig\<lparr>announceOnIdle := True\<rparr>"
  let ?w = "offline\<lparr>speakReply := Reply 200 None\<rparr>"
  have a: "fst (canSpeak ?c ?w initial_state) = Inr (Val (JBool True))"
    by (simp add: offline_def canSpeak_def fetch_def io_defs)
  have b: "truthy (Val (JBool True))" by simp
  have c: "js ''message.updated'' \<noteq> js ''session.idle''"
    by (simp add: js_def)
  have d: "idleMessage ?c = [0xDA] @ js ''kol dokon'' @ [0x10D] @ js ''en.''"
    and e: "canSpeakUrl ?c = canSpeakUrl defaultConfig" "apiUrl ?c = apiUrl defaultConfig"
      "\<not> storeAiResponses ?c" "announceOnIdle ?c"
    by (simp_all add: defaultConfig_def)
  have f: "success_status (speakReply ?w)" by (simp add: offline_def)
  from speak_allowed [OF a b, of "idleMessage ?c"] d e f
  have g: "speak ?c ?w ([0xDA] @ js ''kol dokon'' @ [0x10D] @ js ''en.'') initial_state =
     (Inr True,
      logged initial_state
        [GetCanSpeak (canSpeakUrl defaultConfig),
         PostSpeak (apiUrl defaultConfig) ([0xDA] @ js ''kol dokon'' @ [0x10D] @ js ''en.'')])"
    by simp
  show ?thesis
    using event_dispatch [of "idle_event (js ''ses_1'')" ?c ?w initial_state True]
      event_dispatch [of "\<lparr>event_type = js ''message.updated'', sessionID = js ''ses_1''\<rparr>"
        ?c ?w initial_state True]
      c d e g
    by (simp add: idle_event_def event_run event_announce_run event_capture_run)
qed

text \<open>
  C5. Two idle events in a row whose session data has the same newest assistant message
  identifier add at most one persistence call to the log, and the second adds none; with
  capture running, the marker holds that identifier after the first and after the second.
  In general the marker after an event is the identifier of the newest assistant message
  the capture has seen, and it is what it was when the capture does not run or finds no
  assistant message.
\<close>

theorem capture_deduplicated:
  "(event_type e1 = js ''session.idle'' \<and> event_type e2 = js ''session.idle'' \<and>
    newest_assistant w1 = Some m1 \<and> newest_assistant w2 = Some m2 \<and>
    info_id m1 = info_id m2 \<longrightarrow>
      sqlite_writes (calls (run_events config client [(e1, w1), (e2, w2)] s))
        \<le> sqlite_writes (calls s) + 1 \<and>
      sqlite_writes (calls (run_events config client [(e1, w1), (e2, w2)] s))
        = sqlite_writes (calls (run_events config client [(e1, w1)] s)) \<and>
      (storeAiResponses config \<and> client \<longrightarrow>
         lastProcessedMessageId (run_events config client [(e1, w1)] s) = Some (info_id m1) \<and>
         lastProcessedMessageId (run_events config client [(e1, w1), (e2, w2)] s)
           = Some (info_id m1))) \<and>
   lastProcessedMessageId (snd (event config client w ev s)) =
     (if event_type ev = js ''session.idle'' \<and> storeAiResponses config \<and> client then
        (case newest_assistant w of
           None \<Rightarrow> lastProcessedMessageId s
         | Some m \<Rightarrow> Some (info_id m))
      else lastProcessedMessageId s)"
proof -
  let ?s1 = "snd (event config client w1 e1 s)"
  let ?s2 = "snd (event config client w2 e2 ?s1)"
  have r1: "run_events config client [(e1, w1)] s = ?s1"
    and r2: "run_events config client [(e1, w1), (e2, w2)] s = ?s2"
    by simp_all
  have two: "event_type e1 = js ''session.idle'' \<and> event_type e2 = js ''session.idle'' \<and>
    newest_assistant w1 = Some m1 \<and> newest_assistant w2 = Some m2 \<and>
    info_id m1 = info_id m2 \<longrightarrow>
      sqlite_writes (calls ?s2) \<le> sqlite_writes (calls s) + 1 \<and>
      sqlite_writes (calls ?s2) = sqlite_writes (calls ?s1) \<and>
      (storeAiResponses config \<and> client \<longrightarrow>
         lastProcessedMessageId ?s1 = Some (info_id m1) \<and>
         lastProcessedMessageId ?s2 = Some (info_id m1))"
  proof (intro impI, elim conjE)
    assume h: "event_type e1 = js ''session.idle''" "event_type e2 = js ''session.idle''"
      "newest_assistant w1 = Some m1" "newest_assistant w2 = Some m2" "info_id m1 = info_id m2"
    have m1: "lastProcessedMessageId ?s1 =
        (if storeAiResponses config \<and> client then Some (info_id m1)
         else lastProcessedMessageId s)"
      using h by (simp add: event_marker)
    have m2: "lastProcessedMessageId ?s2 =
        (if storeAiResponses config \<and> client then Some (info_id m1)
         else lastProcessedMessageId s)"
      using h m1 by (simp add: event_marker [of config client w2 e2 ?s1])
    have n1: "sqlite_writes (calls ?s1) \<le> sqlite_writes (calls s) + 1"
      by (simp add: event_writes split: option.splits)
    have n2: "sqlite_writes (calls ?s2) = sqlite_writes (calls ?s1)"
    proof (cases "storeAiResponses config \<and> client")
      case True
      with m1 h(5) have mm: "lastProcessedMessageId ?s1 = Some (info_id m2)"
        by simp
      from True h mm event_writes [of config client w2 e2 ?s1]
      show "sqlite_writes (calls ?s2) = sqlite_writes (calls ?s1)" by simp
    next
      case False
      with event_writes [of config client w2 e2 ?s1]
      show "sqlite_writes (calls ?s2) = sqlite_writes (calls ?s1)" by auto
    qed
    from m1 m2 n1 n2
    show "sqlite_writes (calls ?s2) \<le> sqlite_writes (calls s) + 1 \<and>
      sqlite_writes (calls ?s2) = sqlite_writes (calls ?s1) \<and>
      (storeAiResponses config \<and> client \<longrightarrow>
         lastProcessedMessageId ?s1 = Some (info_id m1) \<and>
         lastProcessedMessageId ?s2 = Some (info_id m1))"
      by (cases client) simp_all
  qed
  show ?thesis
    unfolding r1 r2 by (intro conjI) (rule two, rule event_marker)
qed

theorem capture_deduplicated_witness:
  "newest_assistant
      (offline\<lparr>messagesReply :=
         MessagesData (Some [assistant_message (js ''msg_1'') (js ''Hotovo.'')]),
         sqliteExit := Exit 0\<rparr>) = Some (assistant_message (js ''msg_1'') (js ''Hotovo.'')) \<and>
   filter is_sqlite (calls (run_events (defaultConfig\<lparr>storeAiResponses := True\<rparr>) True
      [(idle_event (js ''ses_1''),
        offline\<lparr>messagesReply :=
           MessagesData (Some [assistant_message (js ''msg_1'') (js ''Hotovo.'')]),
           sqliteExit := Exit 0\<rparr>),
       (idle_event (js ''ses_1''),
        offline\<lparr>messagesReply :=
           MessagesData (Some [assistant_message (js ''msg_1'') (js ''Hotovo.'')]),
           sqliteExit := Exit 0\<rparr>)]
      initial_state))
     = [Sqlite3 (dbPath defaultConfig) (insert_statement (js ''Hotovo.''))] \<and>
   lastProcessedMessageId (run_events (defaultConfig\<lparr>storeAiResponses := True\<rparr>) True
      [(idle_event (js ''ses_1''),
        offline\<lparr>messagesReply :=
           MessagesData (Some [assistant_message (js ''msg_1'') (js ''Hotovo.'')]),
           sqliteExit := Exit 0\<rparr>),
       (idle_event (js ''ses_1''),
        offline\<lparr>messagesReply :=
           MessagesData (Some [assistant_message (js ''msg_1'') (js ''Hotovo.'')]),
           sqliteExit := Exit 0\<rparr>)]
      initial_state) = Some (js ''msg_1'')"
proof -
  let ?c = "defaultConfig\<lparr>storeAiResponses := True\<rparr>"
  let ?m = "assistant_message (js ''msg_1'') (js ''Hotovo.'')"
  let ?w = "offline\<lparr>messagesReply := MessagesData (Some [?m]), sqliteExit := Exit 0\<rparr>"
  let ?e = "idle_event (js ''ses_1'')"
  have a: "newest_assistant ?w = Some ?m"
    by (simp add: newest_assistant_def offline_def assistant_message_def)
  have b: "event_type ?e = js ''session.idle''" by (simp add: idle_event_def)
  have c: "storeAiResponses ?c" "\<not> announceOnIdle ?c" "dbPath ?c = dbPath defaultConfig"
    by (simp_all add: defaultConfig_def)
  have d: "extractTextFromParts (parts ?m) = js ''Hotovo.''"
    by (simp add: assistant_message_def extractTextFromParts_def join_def)
  have e: "trim (js ''Hotovo.'') \<noteq> []"
    by (simp add: trim_empty_iff js_def js_whitespace_def)
  have f: "info_id ?m = js ''msg_1''" by (simp add: assistant_message_def)
  show ?thesis
    using capture_deduplicated [of ?e ?e ?w ?m ?w ?m ?c True initial_state]
      a b c d e f
    by (simp add: event_run event_announce_run event_capture_run logged_def initial_state_def)
qed

text \<open>
  C6 (amended). The marker is set as soon as a new assistant message is identified and
  before the store is called: when the marker is assigned, the log ends with the session
  data query, and the insertion, if there is one, is logged after the assignment. This is
  so whatever the insertion then does. So after the event the marker holds the identifier,
  at most one insertion has been attempted for it, and no later event hands it to the store
  again for as long as the session data of the later events shows that same newest assistant
  message or none: the marker stays and no persistence call is added.
\<close>

theorem capture_attempted_once:
  assumes "event_type ev = js ''session.idle''" and "storeAiResponses config" and "client"
    and "newest_assistant w = Some m"
    and "lastProcessedMessageId s \<noteq> Some (info_id m)"
    and "\<forall>(e, w') \<in> set later. \<forall>m'. newest_assistant w' = Some m' \<longrightarrow> info_id m' = info_id m"
  shows
    "lastProcessedMessageId (snd (event config client w ev s)) = Some (info_id m) \<and>
     take (markerWrittenAt (snd (event config client w ev s)))
         (calls (snd (event config client w ev s))) =
       calls (snd (event_announce config w ev s)) @ [SessionMessages (sessionID ev)] \<and>
     drop (markerWrittenAt (snd (event config client w ev s)))
         (calls (snd (event config client w ev s))) =
       (if trim (extractTextFromParts (parts m)) = [] then []
        else [Sqlite3 (dbPath config) (insert_statement (extractTextFromParts (parts m)))]) \<and>
     sqlite_writes (calls (snd (event config client w ev s))) =
       sqlite_writes (calls s) + (if trim (extractTextFromParts (parts m)) = [] then 0 else 1) \<and>
     lastProcessedMessageId (run_events config client later (snd (event config client w ev s)))
       = Some (info_id m) \<and>
     sqlite_writes (calls (run_events config client later (snd (event config client w ev s))))
       = sqlite_writes (calls (snd (event config client w ev s)))"
proof -
  let ?s = "snd (event config client w ev s)"
  let ?a = "snd (event_announce config w ev s)"
  let ?ins = "if trim (extractTextFromParts (parts m)) = [] then []
    else [Sqlite3 (dbPath config) (insert_statement (extractTextFromParts (parts m)))]"
  from assms(1-4) have a: "lastProcessedMessageId ?s = Some (info_id m)"
    by (simp add: event_marker)
  from assms(1-5) have b: "sqlite_writes (calls ?s) =
      sqlite_writes (calls s) + (if trim (extractTextFromParts (parts m)) = [] then 0 else 1)"
    using event_writes [of config client w ev s] by auto
  from assms(5) have "Some (info_id m) \<noteq> lastProcessedMessageId ?a"
    by (simp add: event_announce_marker)
  with assms(1-4) have c: "?s =
      (logged ?a (SessionMessages (sessionID ev) # ?ins))
        \<lparr>lastProcessedMessageId := Some (info_id m),
         markerWrittenAt := Suc (length (calls ?a))\<rparr>"
    by (simp add: event_run event_capture_run)
  have d: "take (markerWrittenAt ?s) (calls ?s) = calls ?a @ [SessionMessages (sessionID ev)]"
    by (subst (1 2) c) (simp add: logged_def)
  have e: "drop (markerWrittenAt ?s) (calls ?s) = ?ins"
    by (subst (1 2) c) (simp add: logged_def)
  from run_events_settled [OF a assms(6), of config client] a b d e show ?thesis
    by simp
qed

theorem capture_attempted_once_witness:
  "\<not> exited_zero (sqliteExit
      (offline\<lparr>messagesReply :=
         MessagesData (Some [assistant_message (js ''msg_1'') (js ''Hotovo.'')])\<rparr>)) \<and>
   lastProcessedMessageId initial_state \<noteq> Some (js ''msg_1'') \<and>
   lastProcessedMessageId (snd (event (defaultConfig\<lparr>storeAiResponses := True\<rparr>) True
      (offline\<lparr>messagesReply :=
         MessagesData (Some [assistant_message (js ''msg_1'') (js ''Hotovo.'')])\<rparr>)
      (idle_event (js ''ses_1'')) initial_state)) = Some (js ''msg_1'') \<and>
   markerWrittenAt (snd (event (defaultConfig\<lparr>storeAiResponses := True\<rparr>) True
      (offline\<lparr>messagesReply :=
         MessagesData (Some [assistant_message (js ''msg_1'') (js ''Hotovo.'')])\<rparr>)
      (idle_event (js ''ses_1'')) initial_state)) = 1 \<and>
   calls (snd (event (defaultConfig\<lparr>storeAiResponses := True\<rparr>) True
      (offline\<lparr>messagesReply :=
         MessagesData (Some [assistant_message (js ''msg_1'') (js ''Hotovo.'')])\<rparr>)
      (idle_event (js ''ses_1'')) initial_state)) =
     [SessionMessages (js ''ses_1''),
      Sqlite3 (dbPath defaultConfig) (insert_statement (js ''Hotovo.''))] \<and>
   filter is_sqlite (calls (run_events (defaultConfig\<lparr>storeAiResponses := True\<rparr>) True
      [(idle_event (js ''ses_1''),
        offline\<lparr>messagesReply :=
           MessagesData (Some [assistant_message (js ''msg_1'') (js ''Hotovo.'')]),
           sqliteExit := Exit 0\<rparr>),
       (idle_event (js ''ses_1''), offline)]
      (snd (event (defaultConfig\<lparr>storeAiResponses := True\<rparr>) True
        (offline\<lparr>messagesReply :=
           MessagesData (Some [assistant_message (js ''msg_1'') (js ''Hotovo.'')])\<rparr>)
        (idle_event (js ''ses_1'')) initial_state))))
     = [Sqlite3 (dbPath defaultConfig) (insert_statement (js ''Hotovo.''))]"
proof -
  let ?c = "defaultConfig\<lparr>storeAiResponses := True\<rparr>"
  let ?m = "assistant_message (js ''msg_1'') (js ''Hotovo.'')"
  let ?w = "offline\<lparr>messagesReply := MessagesData (Some [?m])\<rparr>"
  let ?w' = "offline\<lparr>messagesReply := MessagesData (Some [?m]), sqliteExit := Exit 0\<rparr>"
  let ?e = "idle_event (js ''ses_1'')"
  have a: "newest_assistant ?w = Some ?m" "newest_assistant ?w' = Some ?m"
    "newest_assistant offline = None"
    by (simp_all add: newest_assistant_def offline_def assistant_message_def)
  have b: "event_type ?e = js ''session.idle''" by (simp add: idle_event_def)
  have c: "storeAiResponses ?c" "\<not> announceOnIdle ?c" "dbPath ?c = dbPath defaultConfig"
    by (simp_all add: defaultConfig_def)
  have d: "extractTextFromParts (parts ?m) = js ''Hotovo.''"
    by (simp add: assistant_message_def extractTextFromParts_def join_def)
  have e: "trim (js ''Hotovo.'') \<noteq> []"
    by (simp add: trim_empty_iff js_def js_whitespace_def)
  have f: "info_id ?m = js ''msg_1''" by (simp add: assistant_message_def)
  have g: "lastProcessedMessageId initial_state \<noteq> Some (info_id ?m)"
    by (simp add: initial_state_def)
  have h: "\<forall>(e, w') \<in> set [(?e, ?w'), (?e, offline)].
      \<forall>m'. newest_assistant w' = Some m' \<longrightarrow> info_id m' = info_id ?m"
    using a by simp
  have i: "\<not> exited_zero (sqliteExit ?w)" by (simp add: offline_def)
  have j: "sessionID ?e = js ''ses_1''" by (simp add: idle_event_def)
  show ?thesis
    using capture_attempted_once [OF b c(1) TrueI a(1) g h] a b c d e f i j
    by (simp add: event_run event_announce_run event_capture_run logged_def initial_state_def)
qed

text \<open>
  The claim as first stated fails once another assistant message has been seen in between.
  A first session goes idle and the insertion of its message fails; a second session goes
  idle; the first session goes idle again with its newest assistant message unchanged. The
  marker then holds the second identifier, and the first message is handed to the store
  again.
\<close>

theorem capture_retried_counterexample:
  "\<not> exited_zero (sqliteExit
      (offline\<lparr>messagesReply :=
         MessagesData (Some [assistant_message (js ''msg_1'') (js ''first'')])\<rparr>)) \<and>
   filter is_sqlite (calls (run_events (defaultConfig\<lparr>storeAiResponses := True\<rparr>) True
      [(idle_event (js ''ses_1''),
        offline\<lparr>messagesReply :=
           MessagesData (Some [assistant_message (js ''msg_1'') (js ''first'')])\<rparr>),
       (idle_event (js ''ses_2''),
        offline\<lparr>messagesReply :=
           MessagesData (Some [assistant_message (js ''msg_2'') (js ''second'')]),
           sqliteExit := Exit 0\<rparr>),
       (idle_event (js ''ses_1''),
        offline\<lparr>messagesReply :=
           MessagesData (Some [assistant_message (js ''msg_1'') (js ''first'')]),
           sqliteExit := Exit 0\<rparr>)]
      initial_state))
     = [Sqlite3 (dbPath defaultConfig) (insert_statement (js ''first'')),
        Sqlite3 (dbPath defaultConfig) (insert_statement (js ''second'')),
        Sqlite3 (dbPath defaultConfig) (insert_statement (js ''first''))]"
proof -
  let ?c = "defaultConfig\<lparr>storeAiResponses := True\<rparr>"
  let ?m1 = "assistant_message (js ''msg_1'') (js ''first'')"
  let ?m2 = "assistant_message (js ''msg_2'') (js ''second'')"
  have a: "newest_assistant (offline\<lparr>messagesReply := MessagesData (Some [?m1])\<rparr>) = Some ?m1"
    "newest_assistant (offline\<lparr>messagesReply := MessagesData (Some [?m2]), sqliteExit := Exit 0\<rparr>)
       = Some ?m2"
    "newest_assistant (offline\<lparr>messagesReply := MessagesData (Some [?m1]), sqliteExit := Exit 0\<rparr>)
       = Some ?m1"
    by (simp_all add: newest_assistant_def offline_def assistant_message_def)
  have c: "storeAiResponses ?c" "\<not> announceOnIdle ?c" "dbPath ?c = dbPath defaultConfig"
    by (simp_all add: defaultConfig_def)
  have d: "extractTextFromParts (parts ?m1) = js ''first''"
    "extractTextFromParts (parts ?m2) = js ''second''"
    by (simp_all add: assistant_message_def extractTextFromParts_def join_def)
  have e: "trim (js ''first'') \<noteq> []" "trim (js ''second'') \<noteq> []"
    by (simp_all add: trim_empty_iff js_def js_whitespace_def)
  have f: "info_id ?m1 = js ''msg_1''" "info_id ?m2 = js ''msg_2''"
    "js ''msg_1'' \<noteq> js ''msg_2''" "js ''msg_2'' \<noteq> js ''msg_1''"
    by (simp_all add: assistant_message_def js_def)
  have i: "\<not> exited_zero (sqliteExit (offline\<lparr>messagesReply := MessagesData (Some [?m1])\<rparr>))"
    by (simp add: offline_def)
  show ?thesis
    using a c d e f i
    by (simp add: event_run event_announce_run event_capture_run logged_def initial_state_def
        idle_event_def)
qed

end
